theory Spec2Isabelle
  imports Complex_Main "HOL-Library.Multiset"
begin

section \<open>Values of the Python program\<close>

text \<open>
  A Python \<open>float\<close>: a finite double is modelled by the rational it denotes, next to the
  two infinities and NaN. The program never does arithmetic on a return value; it only
  stores, compares and sorts them.
\<close>

datatype pyfloat = NegInf | Finite rat | PosInf | NaN

text \<open>The IEEE comparison \<open>\<le>\<close>: false as soon as one side is NaN.\<close>

fun fle :: "pyfloat \<Rightarrow> pyfloat \<Rightarrow> bool" where
  "fle NaN _ = False"
| "fle _ NaN = False"
| "fle NegInf _ = True"
| "fle _ PosInf = True"
| "fle (Finite a) (Finite b) = (a \<le> b)"
| "fle _ _ = False"

text \<open>
  What \<open>response.json()\<close> returns: \<open>None\<close>, a \<open>bool\<close>, an \<open>int\<close>, a \<open>float\<close>,
  a \<open>str\<close>, a \<open>list\<close> or a \<open>dict\<close> with string keys. A dict is the association list of
  its items, read with \<open>map_of\<close>. Strings are byte lists (UTF-8).
\<close>

datatype json =
    JNull
  | JBool bool
  | JInt int
  | JFloat pyfloat
  | JStr string
  | JList "json list"
  | JObj "(string \<times> json) list"

text \<open>
  The exceptions that can travel through the program. \<open>HTTPError\<close> is the one
  \<open>raise_for_status\<close> raises; \<open>RequestException\<close> stands for every other failure of the
  transport (connection, timeout).
\<close>

datatype exn =
    KeyError | ValueError | TypeError | AttributeError | OverflowError
  | HTTPError | RequestException

text \<open>
  The library calls whose results the program only passes on are parameters of the model:
  \<^item> \<open>http_get_json url\<close> is \<open>requests.get(url, ...)\<close>, \<open>raise_for_status()\<close> and
    \<open>response.json()\<close> together: the exception raised or the decoded body;
  \<^item> \<open>str_repr v\<close> is \<open>str(v)\<close> for a value that is not already a string;
  \<^item> \<open>float_of_str s\<close> is \<open>float(s)\<close> for a string, \<open>None\<close> when it raises
    \<open>ValueError\<close>;
  \<^item> \<open>argsort xs\<close> is numpy's \<open>argsort\<close> with \<open>kind="quicksort"\<close> (the default
    of \<open>DataFrame.sort_values\<close>) on an array without NaN;
  \<^item> \<open>csv_text rows sep\<close> is the text \<open>to_csv(index=False)\<close> renders for a frame
    with a separator of one character.
\<close>

record env =
  http_get_json :: "string \<Rightarrow> exn + json"
  str_repr :: "json \<Rightarrow> string"
  float_of_str :: "string \<Rightarrow> pyfloat option"
  argsort :: "pyfloat list \<Rightarrow> nat list"
  csv_text :: "(string \<times> pyfloat option \<times> pyfloat option \<times> pyfloat option) list \<Rightarrow> string \<Rightarrow> string"

subsection \<open>Builtins\<close>

text \<open>Truth value of an object, as \<open>if operator_code:\<close> tests it.\<close>

fun truthy :: "json \<Rightarrow> bool" where
  "truthy JNull = False"
| "truthy (JBool b) = b"
| "truthy (JInt i) = (i \<noteq> 0)"
| "truthy (JFloat f) = (f \<noteq> Finite 0)"
| "truthy (JStr s) = (s \<noteq> [])"
| "truthy (JList l) = (l \<noteq> [])"
| "truthy (JObj d) = (d \<noteq> [])"

text \<open>\<open>str(v)\<close>: a string is returned as it is.\<close>

fun py_str :: "env \<Rightarrow> json \<Rightarrow> string" where
  "py_str e (JStr s) = s"
| "py_str e v = str_repr e v"

text \<open>
  \<open>str.strip()\<close> removes from both ends every character for which \<open>str.isspace\<close>
  holds. These are their UTF-8 encodings: U+0009 to U+000D, U+001C to U+0020, U+0085,
  U+00A0, U+1680, U+2000 to U+200A, U+2028, U+2029, U+202F, U+205F and U+3000.
\<close>

definition whitespace :: "string list" where
  "whitespace =
     map (\<lambda>c. [c])
       [CHR 0x09, CHR 0x0A, CHR 0x0B, CHR 0x0C, CHR 0x0D,
        CHR 0x1C, CHR 0x1D, CHR 0x1E, CHR 0x1F, CHR 0x20] @
     [[CHR 0xC2, CHR 0x85], [CHR 0xC2, CHR 0xA0], [CHR 0xE1, CHR 0x9A, CHR 0x80]] @
     map (\<lambda>c. [CHR 0xE2, CHR 0x80, c])
       [CHR 0x80, CHR 0x81, CHR 0x82, CHR 0x83, CHR 0x84, CHR 0x85, CHR 0x86,
        CHR 0x87, CHR 0x88, CHR 0x89, CHR 0x8A, CHR 0xA8, CHR 0xA9, CHR 0xAF] @
     [[CHR 0xE2, CHR 0x81, CHR 0x9F], [CHR 0xE3, CHR 0x80, CHR 0x80]]"

fun space_prefix :: "string list \<Rightarrow> string \<Rightarrow> nat" where
  "space_prefix [] s = 0"
| "space_prefix (w # ws) s =
     (if take (length w) s = w then length w else space_prefix ws s)"

function lstrip :: "string \<Rightarrow> string" where
  "lstrip s =
     (if s \<noteq> [] \<and> 0 < space_prefix whitespace s
      then lstrip (drop (space_prefix whitespace s) s) else s)"
  by pat_completeness auto
termination
  by (relation "measure length") auto

fun space_suffix :: "string list \<Rightarrow> string \<Rightarrow> nat" where
  "space_suffix [] s = 0"
| "space_suffix (w # ws) s =
     (if length w \<le> length s \<and> drop (length s - length w) s = w
      then length w else space_suffix ws s)"

function rstrip :: "string \<Rightarrow> string" where
  "rstrip s =
     (if s \<noteq> [] \<and> 0 < space_suffix whitespace s
      then rstrip (take (length s - space_suffix whitespace s) s) else s)"
  by pat_completeness auto
termination
  by (relation "measure length") auto

declare lstrip.simps [simp del] rstrip.simps [simp del]

definition py_strip :: "string \<Rightarrow> string" where
  "py_strip s = rstrip (lstrip s)"

text \<open>
  \<open>float(n)\<close> for an \<open>int\<close> rounds to the nearest double, ties to even, and raises
  \<open>OverflowError\<close> when the rounded value does not fit: from \<open>2^1024 - 2^970\<close> on.
\<close>

fun bit_length :: "nat \<Rightarrow> nat" where
  "bit_length n = (if n = 0 then 0 else Suc (bit_length (n div 2)))"

declare bit_length.simps [simp del]

definition float_of_int :: "int \<Rightarrow> exn + pyfloat" where
  "float_of_int i =
     (if 2 ^ 1024 - 2 ^ 970 \<le> \<bar>i\<bar> then Inl OverflowError
      else if bit_length (nat \<bar>i\<bar>) \<le> 53 then Inr (Finite (of_int i))
      else
        let e = bit_length (nat \<bar>i\<bar>) - 53;
            q = \<bar>i\<bar> div 2 ^ e;
            r = \<bar>i\<bar> mod 2 ^ e;
            q' = (if 2 ^ (e - 1) < r \<or> (r = 2 ^ (e - 1) \<and> odd q) then q + 1 else q)
        in Inr (Finite (of_int (sgn i * q' * 2 ^ e))))"

text \<open>
  \<open>float(value)\<close>: \<open>TypeError\<close> for \<open>None\<close>, a list or a dict, \<open>ValueError\<close> for
  a string that is not a number.
\<close>

fun py_float :: "env \<Rightarrow> json \<Rightarrow> exn + pyfloat" where
  "py_float e JNull = Inl TypeError"
| "py_float e (JBool b) = Inr (Finite (if b then 1 else 0))"
| "py_float e (JInt i) = float_of_int i"
| "py_float e (JFloat f) = Inr f"
| "py_float e (JStr s) =
     (case float_of_str e s of None \<Rightarrow> Inl ValueError | Some f \<Rightarrow> Inr f)"
| "py_float e (JList l) = Inl TypeError"
| "py_float e (JObj d) = Inl TypeError"

text \<open>\<open>d.get(key, dflt)\<close>: the value under \<open>key\<close> when the key is there, whatever it is.\<close>

definition dict_get :: "(string \<times> json) list \<Rightarrow> string \<Rightarrow> json \<Rightarrow> json" where
  "dict_get d key dflt = (case map_of d key of Some v \<Rightarrow> v | None \<Rightarrow> dflt)"

section \<open>Configuration\<close>

definition BASE_URL :: string where
  "BASE_URL = ''https://webapps.supen.fi.cr/Estadisticas/API''"

text \<open>Horizon, endpoint path and the field that holds the return.\<close>

definition ENDPOINTS :: "(string \<times> string \<times> string) list" where
  "ENDPOINTS =
     [(''short'', ''/rendimientos/nominal/12meses'', ''rendimiento''),
      (''medium'', ''/rendimientos/nominal/36meses'', ''rendimiento''),
      (''long'', ''/rendimientos/nominal/60meses'', ''rendimiento'')]"

text \<open>
  Operator name and code, in the order of the dict's items. The names are written in the
  source with a no-break space (U+00A0, bytes C2 A0) between their words.
\<close>

definition OPERATORS :: "(string \<times> string) list" where
  "OPERATORS =
     [(''BN'' @ [CHR 0xC2, CHR 0xA0] @ ''Vital'', ''BNV''),
      (''BCR'' @ [CHR 0xC2, CHR 0xA0] @ ''Pensiones'', ''BCR''),
      (''Popular'' @ [CHR 0xC2, CHR 0xA0] @ ''Pensiones'', ''POP''),
      (''BAC'' @ [CHR 0xC2, CHR 0xA0] @ ''San'' @ [CHR 0xC2, CHR 0xA0] @ ''Jos'' @ [CHR 0xC3, CHR 0xA9],
       ''BAC''),
      (''Vida'' @ [CHR 0xC2, CHR 0xA0] @ ''Plena'', ''VID''),
      (''ACOFINSA'', ''ACO'')]"

record ReturnData =
  operator :: string
  short :: "pyfloat option"
  medium :: "pyfloat option"
  long :: "pyfloat option"

section \<open>fetch_returns_for_horizon\<close>

text \<open>
  The search for the list of records: the first of the four keys that is in the dict with
  a list under it; a bare list is taken as it is; anything else raises \<open>KeyError\<close>.
\<close>

fun locate_key :: "(string \<times> json) list \<Rightarrow> string list \<Rightarrow> json list option" where
  "locate_key d [] = None"
| "locate_key d (key # keys) =
     (case map_of d key of
        Some (JList l) \<Rightarrow> Some l
      | _ \<Rightarrow> locate_key d keys)"

definition envelope_keys :: "string list" where
  "envelope_keys = [''datos'', ''data'', ''records'', ''result'']"

fun locate_records :: "json \<Rightarrow> exn + json list" where
  "locate_records (JObj d) =
     (case locate_key d envelope_keys of
        None \<Rightarrow> Inl KeyError
      | Some l \<Rightarrow> Inr l)"
| "locate_records (JList l) = Inr l"
| "locate_records _ = Inl KeyError"

text \<open>
  The body of the \<open>try\<close> for one record. \<open>rec.get\<close> on anything but a dict raises
  \<open>AttributeError\<close>; \<open>rec[field]\<close> raises \<open>KeyError\<close> when the field is missing and is
  evaluated before the code is tested; the right-hand side \<open>float(value)\<close> is evaluated
  before the key.
\<close>

fun record_body ::
  "env \<Rightarrow> string \<Rightarrow> json \<Rightarrow> (string \<rightharpoonup> pyfloat) \<Rightarrow> exn + (string \<rightharpoonup> pyfloat)" where
  "record_body e field (JObj d) result =
     (let operator_code =
            dict_get d ''operadora'' (dict_get d ''operador'' (dict_get d ''codigo_operadora'' JNull))
      in case map_of d field of
           None \<Rightarrow> Inl KeyError
         | Some v \<Rightarrow>
             if truthy operator_code
             then (case py_float e v of
                     Inl err \<Rightarrow> Inl err
                   | Inr f \<Rightarrow> Inr (result(py_strip (py_str e operator_code) \<mapsto> f)))
             else Inr result)"
| "record_body e field _ result = Inl AttributeError"

text \<open>\<open>except (KeyError, ValueError, TypeError): continue\<close>: the result is left as it was.\<close>

definition record_step ::
  "env \<Rightarrow> string \<Rightarrow> json \<Rightarrow> (string \<rightharpoonup> pyfloat) \<Rightarrow> exn + (string \<rightharpoonup> pyfloat)" where
  "record_step e field rec result =
     (case record_body e field rec result of
        Inl err \<Rightarrow> if err \<in> {KeyError, ValueError, TypeError} then Inr result else Inl err
      | Inr result' \<Rightarrow> Inr result')"

fun fetch_loop ::
  "env \<Rightarrow> string \<Rightarrow> json list \<Rightarrow> (string \<rightharpoonup> pyfloat) \<Rightarrow> exn + (string \<rightharpoonup> pyfloat)" where
  "fetch_loop e field [] result = Inr result"
| "fetch_loop e field (rec # records) result =
     (case record_step e field rec result of
        Inl err \<Rightarrow> Inl err
      | Inr result' \<Rightarrow> fetch_loop e field records result')"

text \<open>Everything after \<open>data = response.json()\<close>.\<close>

definition parse_response :: "env \<Rightarrow> string \<Rightarrow> json \<Rightarrow> exn + (string \<rightharpoonup> pyfloat)" where
  "parse_response e field data =
     (case locate_records data of
        Inl err \<Rightarrow> Inl err
      | Inr records \<Rightarrow> fetch_loop e field records Map.empty)"

definition fetch_returns_for_horizon :: "env \<Rightarrow> string \<Rightarrow> exn + (string \<rightharpoonup> pyfloat)" where
  "fetch_returns_for_horizon e horizon =
     (case map_of ENDPOINTS horizon of
        None \<Rightarrow> Inl ValueError
      | Some (endpoint, field) \<Rightarrow>
          (case http_get_json e (BASE_URL @ endpoint) of
             Inl err \<Rightarrow> Inl err
           | Inr data \<Rightarrow> parse_response e field data))"

section \<open>collect_returns\<close>

text \<open>
  The loop over the items of the operator dict: one \<open>ReturnData\<close> appended per
  \<open>(name, code)\<close>, each field \<open>horizon_data.get(code)\<close>.
\<close>

fun collect_rows ::
  "(string \<times> string) list \<Rightarrow> (string \<rightharpoonup> pyfloat) \<Rightarrow> (string \<rightharpoonup> pyfloat) \<Rightarrow>
   (string \<rightharpoonup> pyfloat) \<Rightarrow> ReturnData list \<Rightarrow> ReturnData list" where
  "collect_rows [] short_data medium_data long_data results = results"
| "collect_rows ((name, code) # ops) short_data medium_data long_data results =
     collect_rows ops short_data medium_data long_data
       (results @
        [\<lparr>operator = name, short = short_data code, medium = medium_data code,
          long = long_data code\<rparr>])"

text \<open>The three fetches in order (the sleeps between them do nothing to the data).\<close>

definition collect_returns :: "env \<Rightarrow> exn + ReturnData list" where
  "collect_returns e =
     (case fetch_returns_for_horizon e ''short'' of
        Inl err \<Rightarrow> Inl err
      | Inr short_data \<Rightarrow>
          (case fetch_returns_for_horizon e ''medium'' of
             Inl err \<Rightarrow> Inl err
           | Inr medium_data \<Rightarrow>
               (case fetch_returns_for_horizon e ''long'' of
                  Inl err \<Rightarrow> Inl err
                | Inr long_data \<Rightarrow>
                    Inr (collect_rows OPERATORS short_data medium_data long_data []))))"

section \<open>create_ranking\<close>

text \<open>
  \<open>as_dict\<close>: the dict of one record, with the column names as keys.
\<close>

record row =
  Operator :: string
  Short_term :: "pyfloat option"
  Medium_term :: "pyfloat option"
  Long_term :: "pyfloat option"

definition as_dict :: "ReturnData \<Rightarrow> row" where
  "as_dict rd =
     \<lparr>Operator = operator rd, Short_term = short rd, Medium_term = medium rd,
      Long_term = long rd\<rparr>"

text \<open>
  A float as a cell of a \<open>float64\<close> column: \<open>None\<close> is stored as NaN. pandas'
  \<open>isna\<close> holds for \<open>None\<close> and for NaN.
\<close>

definition cell :: "pyfloat option \<Rightarrow> pyfloat" where
  "cell v = (case v of None \<Rightarrow> NaN | Some f \<Rightarrow> f)"

definition isna :: "pyfloat option \<Rightarrow> bool" where
  "isna v = (cell v = NaN)"

text \<open>
  \<open>pd.DataFrame(dicts)\<close>, as the list of its rows. A column whose values are all
  \<open>None\<close> keeps them (dtype \<open>object\<close>); a column with at least one float becomes
  \<open>float64\<close>, and every \<open>None\<close> in it becomes NaN.
\<close>

definition column :: "pyfloat option list \<Rightarrow> pyfloat option \<Rightarrow> pyfloat option" where
  "column vs v = (if list_all (\<lambda>x. x = None) vs then None else Some (cell v))"

definition DataFrame :: "row list \<Rightarrow> row list" where
  "DataFrame dicts =
     map (\<lambda>d. \<lparr>Operator = Operator d,
                Short_term = column (map Short_term dicts) (Short_term d),
                Medium_term = column (map Medium_term dicts) (Medium_term d),
                Long_term = column (map Long_term dicts) (Long_term d)\<rparr>) dicts"

text \<open>
  \<open>sort_values(by="Long term", ascending=False, na_position="last")\<close> takes the rows
  in the order pandas' \<open>nargsort\<close> computes: the positions of the cells that are not
  missing, reversed, permuted by \<open>argsort\<close> of those cells, reversed again, and then the
  positions of the missing cells in their order.
\<close>

definition nargsort :: "env \<Rightarrow> pyfloat option list \<Rightarrow> nat list" where
  "nargsort e items =
     (let idx = [0..<length items];
          non_nan_idx = rev (filter (\<lambda>i. \<not> isna (items ! i)) idx);
          non_nans = map (\<lambda>i. cell (items ! i)) non_nan_idx;
          nan_idx = filter (\<lambda>i. isna (items ! i)) idx;
          indexer = rev (map (\<lambda>j. non_nan_idx ! j) (argsort e non_nans))
      in indexer @ nan_idx)"

definition sort_values :: "env \<Rightarrow> row list \<Rightarrow> row list" where
  "sort_values e df = map (\<lambda>i. df ! i) (nargsort e (map Long_term df))"

text \<open>
  \<open>pd.DataFrame([])\<close> has no column at all, so \<open>sort_values(by="Long term")\<close> raises
  \<open>KeyError\<close> on it.
\<close>

definition create_ranking :: "env \<Rightarrow> ReturnData list \<Rightarrow> exn + row list" where
  "create_ranking e returns =
     (let df = DataFrame (map as_dict returns)
      in if df = [] then Inl KeyError else Inr (sort_values e df))"

section \<open>main\<close>

text \<open>
  \<open>df.to_csv(..., sep=sep)\<close> hands \<open>sep\<close> to the \<open>csv\<close> module as the delimiter,
  which raises \<open>TypeError\<close> unless it is one character long; otherwise the text is the
  rendering \<open>csv_text\<close> of the environment.
\<close>

definition cells :: "row \<Rightarrow> string \<times> pyfloat option \<times> pyfloat option \<times> pyfloat option" where
  "cells r = (Operator r, Short_term r, Medium_term r, Long_term r)"

definition to_csv :: "env \<Rightarrow> row list \<Rightarrow> string \<Rightarrow> exn + string" where
  "to_csv e df sep =
     (if length sep \<noteq> 1 then Inl TypeError else Inr (csv_text e (map cells df) sep))"

text \<open>
  What \<open>main\<close> does, given the value of \<open>--out\<close>: one of the three messages of its
  \<open>except\<close> clauses; or, after the \<open>try\<close>, the ranking printed with separator
  \<open>"; "\<close> and, when a path is given, saved with the default separator; or an
  exception raised outside the \<open>try\<close>.
\<close>

datatype outcome =
    PrintedHttpError | PrintedFormatError | PrintedError
  | PrintedRanking string "(string \<times> string) option"
  | Raised exn

definition main :: "env \<Rightarrow> string option \<Rightarrow> outcome" where
  "main e out =
     (case collect_returns e of
        Inl err \<Rightarrow>
          if err = HTTPError then PrintedHttpError
          else if err = KeyError then PrintedFormatError
          else PrintedError
      | Inr returns_list \<Rightarrow>
          (case create_ranking e returns_list of
             Inl err \<Rightarrow> Raised err
           | Inr ranking_df \<Rightarrow>
               (case to_csv e ranking_df ''; '' of
                  Inl err \<Rightarrow> Raised err
                | Inr text \<Rightarrow>
                    (case out of
                       None \<Rightarrow> PrintedRanking text None
                     | Some path \<Rightarrow>
                         if path = [] then PrintedRanking text None
                         else (case to_csv e ranking_df '','' of
                                 Inl err \<Rightarrow> Raised err
                               | Inr file \<Rightarrow> PrintedRanking text (Some (path, file)))))))"

section \<open>Notions of the specification\<close>

text \<open>
  The contract of \<open>argsort\<close>: on an array without NaN it returns a permutation of the
  positions that puts the values in ascending order. With \<open>kind="quicksort"\<close> nothing
  is promised about the order of equal values.
\<close>

definition argsort_ok :: "(pyfloat list \<Rightarrow> nat list) \<Rightarrow> bool" where
  "argsort_ok f =
     (\<forall>xs. NaN \<notin> set xs \<longrightarrow>
        mset (f xs) = mset [0..<length xs] \<and> sorted_wrt fle (map (\<lambda>j. xs ! j) (f xs)))"

text \<open>
  A sort that meets the contract and keeps equal values in their order: insertion of each
  position before the first position that does not hold a smaller value. This is what
  numpy's scalar quicksort does on arrays of at most 16 elements.
\<close>

fun ins_pos :: "pyfloat list \<Rightarrow> nat \<Rightarrow> nat list \<Rightarrow> nat list" where
  "ins_pos xs i [] = [i]"
| "ins_pos xs i (j # js) =
     (if fle (xs ! i) (xs ! j) then i # j # js else j # ins_pos xs i js)"

fun ins_sort :: "pyfloat list \<Rightarrow> nat list \<Rightarrow> nat list" where
  "ins_sort xs [] = []"
| "ins_sort xs (i # is) = ins_pos xs i (ins_sort xs is)"

definition stable_argsort :: "pyfloat list \<Rightarrow> nat list" where
  "stable_argsort xs = ins_sort xs [0..<length xs]"

text \<open>
  On x86 processors with AVX2 or AVX-512 numpy's quicksort \<open>argsort\<close> of doubles runs
  the sorting networks of x86-simd-sort. Four keys are sorted in one vector: each lane
  holds a key with its position, and three rounds of compare-exchange follow, on the lanes
  \<open>(0,1)\<close> and \<open>(2,3)\<close>, then \<open>(0,3)\<close> and \<open>(1,2)\<close>, then \<open>(0,1)\<close> and \<open>(2,3)\<close>
  again. A compare-exchange leaves the smaller key in the lower lane and moves the
  positions with the keys; two equal keys stay where they are. Fewer than four keys are
  padded with the largest value, which makes the network an insertion sort, as below;
  longer arrays are not modelled and are sorted by insertion here too.
\<close>

definition compare_exchange ::
  "nat \<Rightarrow> nat \<Rightarrow> (pyfloat \<times> nat) list \<Rightarrow> (pyfloat \<times> nat) list" where
  "compare_exchange i j lanes =
     (if fle (fst (lanes ! i)) (fst (lanes ! j)) then lanes
      else lanes[i := lanes ! j, j := lanes ! i])"

definition network4 :: "(pyfloat \<times> nat) list \<Rightarrow> (pyfloat \<times> nat) list" where
  "network4 lanes =
     compare_exchange 2 3 (compare_exchange 0 1
       (compare_exchange 1 2 (compare_exchange 0 3
         (compare_exchange 2 3 (compare_exchange 0 1 lanes)))))"

definition simd_argsort :: "pyfloat list \<Rightarrow> nat list" where
  "simd_argsort xs =
     (if length xs = 4 then map snd (network4 (zip xs [0..<length xs]))
      else stable_argsort xs)"

text \<open>
  An environment to run the model in: no transport, no strings that are numbers, an
  empty rendering.
\<close>

definition env0 :: "(pyfloat list \<Rightarrow> nat list) \<Rightarrow> env" where
  "env0 f =
     \<lparr>http_get_json = (\<lambda>url. Inl RequestException),
      str_repr = (\<lambda>v. ''?''),
      float_of_str = (\<lambda>s. None),
      argsort = f,
      csv_text = (\<lambda>rows sep. [])\<rparr>"

text \<open>
  The shape the specification accepts: a mapping with a list under at least one of the
  four envelope keys, or a bare list.
\<close>

fun is_list :: "json option \<Rightarrow> bool" where
  "is_list (Some (JList l)) = True"
| "is_list _ = False"

fun shape_ok :: "json \<Rightarrow> bool" where
  "shape_ok (JObj d) = (\<exists>key \<in> set envelope_keys. is_list (map_of d key))"
| "shape_ok (JList l) = True"
| "shape_ok _ = False"

text \<open>The value under the first of the keys that the dict has, \<open>None\<close> when it has none.\<close>

fun first_present :: "(string \<times> json) list \<Rightarrow> string list \<Rightarrow> json" where
  "first_present d [] = JNull"
| "first_present d (key # keys) =
     (case map_of d key of Some v \<Rightarrow> v | None \<Rightarrow> first_present d keys)"

text \<open>The ranked rows as a lookup by operator name.\<close>

definition by_name :: "row list \<Rightarrow> string \<rightharpoonup> pyfloat option \<times> pyfloat option \<times> pyfloat option" where
  "by_name rows = map_of (map cells rows)"

text \<open>
  What one record adds to the result, in the words of the specification: the record is a
  mapping that has the value field, its operator code is usable and its value is a
  number; the key is the trimmed string of the code.
\<close>

definition code_fields :: "string list" where
  "code_fields = [''operadora'', ''operador'', ''codigo_operadora'']"

definition entry :: "env \<Rightarrow> string \<Rightarrow> json \<Rightarrow> (string \<times> pyfloat) option" where
  "entry e field rec =
     (case rec of
        JObj d \<Rightarrow>
          (case map_of d field of
             None \<Rightarrow> None
           | Some v \<Rightarrow>
               if truthy (first_present d code_fields)
               then (case py_float e v of
                       Inl err \<Rightarrow> None
                     | Inr f \<Rightarrow> Some (py_strip (py_str e (first_present d code_fields)), f))
               else None)
      | _ \<Rightarrow> None)"

section \<open>Properties of the fetch\<close>

lemma record_step_not_caught:
  "record_step e field r result \<noteq> Inl KeyError"
  "record_step e field r result \<noteq> Inl ValueError"
  "record_step e field r result \<noteq> Inl TypeError"
  by (auto simp: record_step_def split: sum.splits)

lemma fetch_loop_not_KeyError: "fetch_loop e field records result \<noteq> Inl KeyError"
  by (induction records arbitrary: result) (auto simp: record_step_not_caught split: sum.splits)

lemma locate_key_find:
  "locate_key d keys =
     (case find (\<lambda>key. is_list (map_of d key)) keys of
        None \<Rightarrow> None
      | Some key \<Rightarrow> (case map_of d key of Some (JList l) \<Rightarrow> Some l | _ \<Rightarrow> None))"
  by (induction keys) (auto split: option.splits json.splits)

lemma locate_key_None:
  "(locate_key d keys = None) = (\<not> (\<exists>key \<in> set keys. is_list (map_of d key)))"
  by (induction keys) (auto split: option.splits json.splits)

lemma locate_records_KeyError: "(locate_records data = Inl KeyError) = (\<not> shape_ok data)"
proof (cases data)
  case (JObj d)
  show ?thesis
  proof (cases "locate_key d envelope_keys")
    case None
    then show ?thesis using JObj locate_key_None [of d envelope_keys] by simp
  next
    case (Some l)
    then show ?thesis using JObj locate_key_None [of d envelope_keys] by simp
  qed
qed simp_all

lemma locate_records_exn: "locate_records data = Inl err \<Longrightarrow> err = KeyError"
  by (cases data) (simp_all split: option.splits)

lemma parse_response_KeyError: "(parse_response e field data = Inl KeyError) = (\<not> shape_ok data)"
proof (cases "locate_records data")
  case (Inl err)
  then show ?thesis
    using locate_records_exn [OF Inl] locate_records_KeyError [of data]
    by (simp add: parse_response_def)
next
  case (Inr records)
  then show ?thesis
    using locate_records_KeyError [of data]
    by (simp add: parse_response_def fetch_loop_not_KeyError)
qed

lemma operator_code_first_present:
  "dict_get d ''operadora'' (dict_get d ''operador'' (dict_get d ''codigo_operadora'' JNull)) =
     first_present d code_fields"
  by (simp add: dict_get_def code_fields_def split: option.splits)

lemma py_float_exn: "py_float e v = Inl err \<Longrightarrow> err \<in> {TypeError, ValueError, OverflowError}"
  by (cases v) (auto simp: float_of_int_def Let_def split: if_splits option.splits)

lemma record_step_entry:
  assumes "record_step e field r result = Inr result'"
  shows "result' = (case entry e field r of None \<Rightarrow> result | Some (k, f) \<Rightarrow> result(k \<mapsto> f))"
proof (cases r)
  case (JObj d)
  then show ?thesis
    using assms
    by (auto simp: record_step_def entry_def operator_code_first_present Let_def
        split: option.splits sum.splits if_splits)
qed (use assms in \<open>simp_all add: record_step_def\<close>)

lemma record_step_skip:
  assumes "entry e field (JObj d) = None"
    and "\<forall>v. map_of d field = Some v \<longrightarrow> py_float e v \<noteq> Inl OverflowError"
  shows "record_step e field (JObj d) result = Inr result"
proof (cases "map_of d field")
  case None
  then show ?thesis by (simp add: record_step_def Let_def)
next
  case (Some v)
  show ?thesis
  proof (cases "py_float e v")
    case (Inl err)
    then have "err \<in> {TypeError, ValueError}"
      using py_float_exn [OF Inl] assms(2) Some by auto
    then show ?thesis
      using Some Inl by (auto simp: record_step_def Let_def)
  next
    case (Inr f)
    then show ?thesis
      using Some assms(1)
      by (auto simp: record_step_def entry_def operator_code_first_present Let_def
          split: if_splits)
  qed
qed

lemma fetch_loop_append:
  "fetch_loop e field (xs @ ys) result =
     (case fetch_loop e field xs result of Inl err \<Rightarrow> Inl err | Inr m \<Rightarrow> fetch_loop e field ys m)"
  by (induction xs arbitrary: result) (auto split: sum.splits)

lemma fetch_loop_entries:
  "fetch_loop e field records result = Inr m \<Longrightarrow>
     m = result ++ map_of (rev (List.map_filter (entry e field) records))"
proof (induction records arbitrary: result)
  case Nil
  then show ?case by simp
next
  case (Cons r records)
  from Cons.prems obtain result' where
    step: "record_step e field r result = Inr result'"
    and rest: "fetch_loop e field records result' = Inr m"
    by (auto split: sum.splits)
  have m: "m = result' ++ map_of (rev (List.map_filter (entry e field) records))"
    by (rule Cons.IH [OF rest])
  show ?case
  proof (cases "entry e field r")
    case None
    then show ?thesis
      using m record_step_entry [OF step] by (simp add: List.map_filter_simps)
  next
    case (Some kf)
    obtain k f where kf: "kf = (k, f)" by (cases kf)
    have "result' = result(k \<mapsto> f)"
      using record_step_entry [OF step] Some kf by simp
    then show ?thesis
      using m Some kf by (simp add: List.map_filter_simps map_add_upd_left [symmetric] del: map_add_upd_left)
  qed
qed

lemma map_of_rev_entries_last:
  assumes "\<forall>r \<in> set post. \<forall>f'. entry e field r \<noteq> Some (k, f')"
  shows "map_of (rev (List.map_filter (entry e field) post)) k = None"
proof -
  have "k \<notin> fst ` set (List.map_filter (entry e field) post)"
    using assms by (auto simp: List.map_filter_def)
  then show ?thesis
    by (simp add: map_of_eq_None_iff)
qed

lemma py_strip_C1: "py_strip ''C1'' = ''C1''"
  by (simp add: py_strip_def lstrip.simps rstrip.simps whitespace_def)

lemma py_strip_C1_spaces: "py_strip '' C1  '' = ''C1''"
  by (simp add: py_strip_def lstrip.simps rstrip.simps whitespace_def)

text \<open>
  C3: once the transport has delivered the JSON body, the fetch of a configured horizon
  raises \<open>KeyError\<close> (the shape error) exactly when the body is neither a mapping with a
  list under one of \<open>datos\<close>, \<open>data\<close>, \<open>records\<close>, \<open>result\<close> nor a bare list;
  for a mapping the records are the list under the first of these keys, in this order,
  that holds a list; the body \<open>{"foo": [1,2,3]}\<close> raises \<open>KeyError\<close>.
\<close>

theorem fetch_shape_error:
  assumes "map_of ENDPOINTS horizon = Some (endpoint, field)"
    and "http_get_json e (BASE_URL @ endpoint) = Inr data"
  shows "(fetch_returns_for_horizon e horizon = Inl KeyError) = (\<not> shape_ok data)
    \<and> (\<forall>d. data = JObj d \<longrightarrow>
         locate_records data =
           (case find (\<lambda>key. is_list (map_of d key)) [''datos'', ''data'', ''records'', ''result''] of
              None \<Rightarrow> Inl KeyError
            | Some key \<Rightarrow> (case map_of d key of Some (JList l) \<Rightarrow> Inr l | _ \<Rightarrow> Inl KeyError)))
    \<and> (\<forall>l. data = JList l \<longrightarrow> locate_records data = Inr l)
    \<and> fetch_returns_for_horizon e horizon =
        (case locate_records data of Inl err \<Rightarrow> Inl err
         | Inr records \<Rightarrow> fetch_loop e field records Map.empty)
    \<and> (data = JObj [(''foo'', JList [JInt 1, JInt 2, JInt 3])] \<longrightarrow>
         fetch_returns_for_horizon e horizon = Inl KeyError)"
proof -
  have f: "fetch_returns_for_horizon e horizon = parse_response e field data"
    using assms by (simp add: fetch_returns_for_horizon_def)
  have a: "(fetch_returns_for_horizon e horizon = Inl KeyError) = (\<not> shape_ok data)"
    by (simp only: f parse_response_KeyError)
  have b: "\<forall>d. data = JObj d \<longrightarrow>
         locate_records data =
           (case find (\<lambda>key. is_list (map_of d key)) [''datos'', ''data'', ''records'', ''result''] of
              None \<Rightarrow> Inl KeyError
            | Some key \<Rightarrow> (case map_of d key of Some (JList l) \<Rightarrow> Inr l | _ \<Rightarrow> Inl KeyError))"
  proof (intro allI impI)
    fix d assume d: "data = JObj d"
    have "locate_records (JObj d) =
        (case locate_key d envelope_keys of None \<Rightarrow> Inl KeyError | Some l \<Rightarrow> Inr l)"
      by simp
    also have "\<dots> = (case find (\<lambda>key. is_list (map_of d key)) envelope_keys of
              None \<Rightarrow> Inl KeyError
            | Some key \<Rightarrow> (case map_of d key of Some (JList l) \<Rightarrow> Inr l | _ \<Rightarrow> Inl KeyError))"
      unfolding locate_key_find [of d envelope_keys]
      by (simp split: option.split json.split)
    finally show "locate_records data =
           (case find (\<lambda>key. is_list (map_of d key)) [''datos'', ''data'', ''records'', ''result''] of
              None \<Rightarrow> Inl KeyError
            | Some key \<Rightarrow> (case map_of d key of Some (JList l) \<Rightarrow> Inr l | _ \<Rightarrow> Inl KeyError))"
      unfolding d envelope_keys_def .
  qed
  have c: "\<forall>l. data = JList l \<longrightarrow> locate_records data = Inr l"
    by simp
  have "\<not> shape_ok (JObj [(''foo'', JList [JInt 1, JInt 2, JInt 3])])"
    by (simp add: envelope_keys_def)
  then have d: "data = JObj [(''foo'', JList [JInt 1, JInt 2, JInt 3])] \<longrightarrow>
         fetch_returns_for_horizon e horizon = Inl KeyError"
    using a by blast
  have g: "fetch_returns_for_horizon e horizon =
        (case locate_records data of Inl err \<Rightarrow> Inl err
         | Inr records \<Rightarrow> fetch_loop e field records Map.empty)"
    unfolding f parse_response_def ..
  from a b c d g show ?thesis by blast
qed


theorem fetch_shape_error_witness:
  "fetch_returns_for_horizon
     ((env0 stable_argsort)\<lparr>http_get_json := (\<lambda>url. Inr (JObj [(''foo'', JList [JInt 1, JInt 2, JInt 3])]))\<rparr>)
     ''short'' = Inl KeyError"
proof -
  have h1: "map_of ENDPOINTS ''short'' = Some (''/rendimientos/nominal/12meses'', ''rendimiento'')"
    by (simp add: ENDPOINTS_def)
  have h2: "http_get_json
      ((env0 stable_argsort)\<lparr>http_get_json := (\<lambda>url. Inr (JObj [(''foo'', JList [JInt 1, JInt 2, JInt 3])]))\<rparr>)
      (BASE_URL @ ''/rendimientos/nominal/12meses'') = Inr (JObj [(''foo'', JList [JInt 1, JInt 2, JInt 3])])"
    by simp
  show ?thesis
    using fetch_shape_error [OF h1 h2] by blast
qed

text \<open>
  A record whose value is a string that \<open>float\<close> rejects is skipped: the loop goes on
  with the remaining records and the result as it was.
\<close>

lemma fetch_loop_skips_unparsable:
  assumes "float_of_str e ''n/a'' = None"
  shows "fetch_loop e ''rendimiento''
           (JObj [(''operador'', JStr ''C1''), (''rendimiento'', JStr ''n/a'')] # records) result =
         fetch_loop e ''rendimiento'' records result"
  using assms by (simp add: record_step_def dict_get_def)

text \<open>
  C5 (the code departs from the claim): a record whose value fails the coercion is not
  always skipped. \<open>float\<close> of an integer from \<open>2^1024 - 2^970\<close> on raises
  \<open>OverflowError\<close>, which the \<open>except\<close> clause does not list, so the whole fetch
  fails; an element of the list that is not a mapping makes it fail with
  \<open>AttributeError\<close>.
\<close>

theorem fetch_overflow:
  "parse_response e ''rendimiento''
     (JList [JObj [(''operador'', JStr ''C1''), (''rendimiento'', JInt (10 ^ 400))]]) =
     Inl OverflowError
   \<and> parse_response e ''rendimiento''
       (JObj [(''datos'', JList [JObj [(''operador'', JStr ''C1''), (''rendimiento'', JInt 5)], JNull])]) =
      Inl AttributeError"
proof -
  have "(2::int) ^ 1024 - 2 ^ 970 \<le> \<bar>10 ^ 400\<bar>" by simp
  then have "float_of_int (10 ^ 400) = Inl OverflowError"
    unfolding float_of_int_def by (simp only: if_True)
  then have "parse_response e ''rendimiento''
     (JList [JObj [(''operador'', JStr ''C1''), (''rendimiento'', JInt (10 ^ 400))]]) =
     Inl OverflowError"
    by (simp add: parse_response_def record_step_def dict_get_def)
  moreover have "float_of_int 5 = Inr (Finite 5)"
    by (simp add: float_of_int_def bit_length.simps)
  then have "parse_response e ''rendimiento''
       (JObj [(''datos'', JList [JObj [(''operador'', JStr ''C1''), (''rendimiento'', JInt 5)], JNull])]) =
      Inl AttributeError"
    by (simp add: parse_response_def record_step_def dict_get_def envelope_keys_def)
  ultimately show ?thesis by blast
qed

text \<open>
  C6 as the code has it: the operator code is the value under the first of
  \<open>operadora\<close>, \<open>operador\<close>, \<open>codigo_operadora\<close> that is a key of the record,
  whatever that value is (\<open>None\<close> when none is a key); a record whose \<open>operadora\<close>
  is null is skipped, also when \<open>operador\<close> holds a usable code.
\<close>

theorem operator_code_first_key:
  "dict_get d ''operadora'' (dict_get d ''operador'' (dict_get d ''codigo_operadora'' JNull)) =
     first_present d [''operadora'', ''operador'', ''codigo_operadora'']
   \<and> record_body e field (JObj d) result =
       (case map_of d field of
          None \<Rightarrow> Inl KeyError
        | Some v \<Rightarrow>
            if truthy (first_present d [''operadora'', ''operador'', ''codigo_operadora''])
            then (case py_float e v of
                    Inl err \<Rightarrow> Inl err
                  | Inr f \<Rightarrow>
                      Inr (result(py_strip (py_str e
                             (first_present d [''operadora'', ''operador'', ''codigo_operadora''])) \<mapsto> f)))
            else Inr result)
   \<and> (map_of d ''operadora'' = Some JNull \<longrightarrow> record_step e field (JObj d) result = Inr result)"
proof -
  have a: "dict_get d ''operadora'' (dict_get d ''operador'' (dict_get d ''codigo_operadora'' JNull)) =
     first_present d [''operadora'', ''operador'', ''codigo_operadora'']"
    using operator_code_first_present [of d] by (simp add: code_fields_def)
  have b: "record_body e field (JObj d) result =
       (case map_of d field of
          None \<Rightarrow> Inl KeyError
        | Some v \<Rightarrow>
            if truthy (first_present d [''operadora'', ''operador'', ''codigo_operadora''])
            then (case py_float e v of
                    Inl err \<Rightarrow> Inl err
                  | Inr f \<Rightarrow>
                      Inr (result(py_strip (py_str e
                             (first_present d [''operadora'', ''operador'', ''codigo_operadora''])) \<mapsto> f)))
            else Inr result)"
    unfolding record_body.simps a Let_def ..
  have c: "map_of d ''operadora'' = Some JNull \<longrightarrow> record_step e field (JObj d) result = Inr result"
    by (simp add: record_step_def dict_get_def Let_def split: option.splits)
  from a b c show ?thesis by blast
qed

theorem operator_code_first_key_witness:
  "map_of [(''operadora'', JNull), (''operador'', JStr ''C1''), (''rendimiento'', JFloat (Finite 5))]
     ''operadora'' = Some JNull
   \<and> record_step (env0 stable_argsort) ''rendimiento''
       (JObj [(''operadora'', JNull), (''operador'', JStr ''C1''), (''rendimiento'', JFloat (Finite 5))])
       Map.empty = Inr Map.empty"
  using operator_code_first_key [of "[(''operadora'', JNull), (''operador'', JStr ''C1''),
      (''rendimiento'', JFloat (Finite 5))]" "env0 stable_argsort" "''rendimiento''" Map.empty]
  by simp

text \<open>
  The claim C6 as stated fails: with \<open>operadora\<close> null and \<open>operador\<close> equal to
  \<open>C1\<close> the record is skipped, and the result has no key \<open>C1\<close>.
\<close>

theorem null_operadora_counterexample:
  "fetch_loop (env0 stable_argsort) ''rendimiento''
     [JObj [(''operadora'', JNull), (''operador'', JStr ''C1''), (''rendimiento'', JFloat (Finite 5))]]
     Map.empty = Inr Map.empty"
  by (simp add: record_step_def dict_get_def)

text \<open>
  C7: the key of a record is the trimmed string of its operator code, and after the loop
  the result holds under that key the value of the last record that has it: records
  before it are overwritten. Two records coded \<open>C1\<close> leave the value of the second.
\<close>

theorem fetch_last_write_wins:
  assumes "fetch_loop e field (pre @ JObj d # post) result = Inr m"
    and "code = dict_get d ''operadora'' (dict_get d ''operador'' (dict_get d ''codigo_operadora'' JNull))"
    and "truthy code"
    and "map_of d field = Some v"
    and "py_float e v = Inr f"
    and "\<forall>r \<in> set post. \<forall>f'. entry e field r \<noteq> Some (py_strip (py_str e code), f')"
  shows "m (py_strip (py_str e code)) = Some f
    \<and> m = result ++ map_of (rev (List.map_filter (entry e field) (pre @ JObj d # post)))
    \<and> fetch_loop e ''rendimiento''
         [JObj [(''operador'', JStr ''C1''), (''rendimiento'', JFloat a)],
          JObj [(''operador'', JStr '' C1  ''), (''rendimiento'', JFloat b)]] Map.empty =
        Inr [''C1'' \<mapsto> b]"
proof -
  let ?k = "py_strip (py_str e code)"
  have ent: "entry e field (JObj d) = Some (?k, f)"
    using assms(2-5) by (simp add: entry_def operator_code_first_present)
  have m: "m = result ++ map_of (rev (List.map_filter (entry e field) (pre @ JObj d # post)))"
    by (rule fetch_loop_entries [OF assms(1)])
  have none: "map_of (rev (List.map_filter (entry e field) post)) ?k = None"
    by (rule map_of_rev_entries_last [OF assms(6)])
  have "m ?k = Some f"
    unfolding m using ent none
    by (simp add: List.map_filter_def map_add_def)
  moreover have "fetch_loop e ''rendimiento''
         [JObj [(''operador'', JStr ''C1''), (''rendimiento'', JFloat a)],
          JObj [(''operador'', JStr '' C1  ''), (''rendimiento'', JFloat b)]] Map.empty =
        Inr [''C1'' \<mapsto> b]"
    by (simp add: record_step_def dict_get_def py_strip_C1 py_strip_C1_spaces)
  ultimately show ?thesis using m by blast
qed

theorem fetch_last_write_wins_witness:
  "fetch_loop (env0 stable_argsort) ''rendimiento''
     ([JObj [(''operador'', JStr ''C1''), (''rendimiento'', JFloat (Finite 1))]] @
      JObj [(''operadora'', JStr '' C1  ''), (''rendimiento'', JFloat (Finite 2))] # []) Map.empty =
     Inr [''C1'' \<mapsto> Finite 2]
   \<and> [''C1'' \<mapsto> Finite 2] (py_strip (py_str (env0 stable_argsort) (JStr '' C1  ''))) = Some (Finite 2)"
proof -
  let ?e = "env0 stable_argsort"
  let ?d = "[(''operadora'', JStr '' C1  ''), (''rendimiento'', JFloat (Finite 2))]"
  have h1: "fetch_loop ?e ''rendimiento''
     ([JObj [(''operador'', JStr ''C1''), (''rendimiento'', JFloat (Finite 1))]] @ JObj ?d # []) Map.empty =
     Inr [''C1'' \<mapsto> Finite 2]"
    by (simp add: record_step_def dict_get_def py_strip_C1 py_strip_C1_spaces)
  have h2: "JStr '' C1  '' =
     dict_get ?d ''operadora'' (dict_get ?d ''operador'' (dict_get ?d ''codigo_operadora'' JNull))"
    by (simp add: dict_get_def)
  have h3: "truthy (JStr '' C1  '')" by simp
  have h4: "map_of ?d ''rendimiento'' = Some (JFloat (Finite 2))" by simp
  have h5: "py_float ?e (JFloat (Finite 2)) = Inr (Finite 2)" by simp
  have h6: "\<forall>r \<in> set []. \<forall>f'. entry ?e ''rendimiento'' r \<noteq>
      Some (py_strip (py_str ?e (JStr '' C1  '')), f')" by simp
  from fetch_last_write_wins [OF h1 h2 h3 h4 h5 h6] h1 show ?thesis by blast
qed

text \<open>
  C10: a record whose operator code is falsy (empty string, null, no code field at all)
  is skipped, whatever its value field holds: the step returns the result unchanged,
  and the loop runs as if the record were not in the list.
\<close>

theorem fetch_falsy_code_skipped:
  assumes "\<not> truthy (dict_get d ''operadora'' (dict_get d ''operador'' (dict_get d ''codigo_operadora'' JNull)))"
  shows "record_step e field (JObj d) result = Inr result
    \<and> fetch_loop e field (pre @ JObj d # post) result = fetch_loop e field (pre @ post) result
    \<and> entry e field (JObj d) = None"
proof -
  have step: "record_step e field (JObj d) r = Inr r" for r
    using assms by (simp add: record_step_def Let_def split: option.splits)
  have "fetch_loop e field (pre @ JObj d # post) result = fetch_loop e field (pre @ post) result"
    by (simp add: fetch_loop_append step split: sum.splits)
  moreover have "entry e field (JObj d) = None"
    using assms by (simp add: entry_def operator_code_first_present split: option.splits)
  ultimately show ?thesis using step by blast
qed

theorem fetch_falsy_code_skipped_witness:
  "\<not> truthy (JStr [])
   \<and> fetch_loop (env0 stable_argsort) ''rendimiento''
       ([] @ JObj [(''operadora'', JStr []), (''operador'', JStr ''C1''),
                   (''rendimiento'', JFloat (Finite 5))] # []) Map.empty =
      Inr Map.empty"
proof -
  let ?d = "[(''operadora'', JStr []), (''operador'', JStr ''C1''), (''rendimiento'', JFloat (Finite 5))]"
  have h: "\<not> truthy (dict_get ?d ''operadora'' (dict_get ?d ''operador'' (dict_get ?d ''codigo_operadora'' JNull)))"
    by (simp add: dict_get_def)
  from fetch_falsy_code_skipped [OF h, of "env0 stable_argsort" "''rendimiento''" Map.empty "[]" "[]"]
  show ?thesis by simp
qed

section \<open>Properties of the aggregation\<close>

lemma collect_rows_acc:
  "collect_rows D s m l acc =
     acc @ map (\<lambda>(name, code). \<lparr>operator = name, short = s code, medium = m code, long = l code\<rparr>) D"
  by (induction D arbitrary: acc) auto

lemma collect_rows_restrict:
  "collect_rows D (s |` (snd ` set D)) (m |` (snd ` set D)) (l |` (snd ` set D)) [] =
     collect_rows D s m l []"
  unfolding collect_rows_acc
  by (rule arg_cong [where f = "\<lambda>x. [] @ x"], rule map_cong) (force simp: restrict_map_def)+

lemma collect_rows_nth:
  assumes "i < length D"
  shows "collect_rows D s m l [] ! i =
     \<lparr>operator = fst (D ! i), short = s (snd (D ! i)), medium = m (snd (D ! i)),
      long = l (snd (D ! i))\<rparr>"
  using assms by (simp add: collect_rows_acc split_beta)


text \<open>
  C4: for every directory \<open>D\<close> and every three maps the loop of \<open>collect_returns\<close>
  yields exactly one record per \<open>(name, code)\<close> of \<open>D\<close>, in the order of \<open>D\<close>; each
  field is the lookup of the code in its map, \<open>None\<close> exactly when the code is not a key
  of that map; codes of the maps that are not in \<open>D\<close> change nothing.
\<close>

theorem collect_rows_rows:
  "collect_rows D s m l [] =
     map (\<lambda>(name, code). \<lparr>operator = name, short = s code, medium = m code, long = l code\<rparr>) D
   \<and> length (collect_rows D s m l []) = length D
   \<and> map operator (collect_rows D s m l []) = map fst D
   \<and> (\<forall>i < length D.
        collect_rows D s m l [] ! i =
          \<lparr>operator = fst (D ! i), short = s (snd (D ! i)), medium = m (snd (D ! i)),
           long = l (snd (D ! i))\<rparr>
        \<and> (short (collect_rows D s m l [] ! i) = None) = (snd (D ! i) \<notin> dom s)
        \<and> (medium (collect_rows D s m l [] ! i) = None) = (snd (D ! i) \<notin> dom m)
        \<and> (long (collect_rows D s m l [] ! i) = None) = (snd (D ! i) \<notin> dom l))
   \<and> collect_rows D (s |` (snd ` set D)) (m |` (snd ` set D)) (l |` (snd ` set D)) [] =
       collect_rows D s m l []"
proof -
  have a: "collect_rows D s m l [] =
     map (\<lambda>(name, code). \<lparr>operator = name, short = s code, medium = m code, long = l code\<rparr>) D"
    by (simp add: collect_rows_acc)
  have b: "length (collect_rows D s m l []) = length D"
    by (simp add: a)
  have c: "map operator (collect_rows D s m l []) = map fst D"
    by (simp add: a split_beta comp_def)
  have d: "\<forall>i < length D.
        collect_rows D s m l [] ! i =
          \<lparr>operator = fst (D ! i), short = s (snd (D ! i)), medium = m (snd (D ! i)),
           long = l (snd (D ! i))\<rparr>
        \<and> (short (collect_rows D s m l [] ! i) = None) = (snd (D ! i) \<notin> dom s)
        \<and> (medium (collect_rows D s m l [] ! i) = None) = (snd (D ! i) \<notin> dom m)
        \<and> (long (collect_rows D s m l [] ! i) = None) = (snd (D ! i) \<notin> dom l)"
    by (simp add: collect_rows_nth domIff)
  from a b c d collect_rows_restrict [of D s m l] show ?thesis by blast
qed

theorem collect_rows_rows_witness:
  "(1::nat) < length [(''X'', ''C1''), (''Y'', ''C2'')]
   \<and> collect_rows [(''X'', ''C1''), (''Y'', ''C2'')] Map.empty Map.empty [''ZZ'' \<mapsto> Finite 1] [] ! 1 =
       \<lparr>operator = ''Y'', short = None, medium = None, long = None\<rparr>
   \<and> length (collect_rows [(''X'', ''C1''), (''Y'', ''C2'')] Map.empty Map.empty [''ZZ'' \<mapsto> Finite 1] []) = 2"
  using collect_rows_rows [of "[(''X'', ''C1''), (''Y'', ''C2'')]" Map.empty Map.empty "[''ZZ'' \<mapsto> Finite 1]"]
  by simp

section \<open>Properties of the ranking\<close>

lemma fle_total: "a \<noteq> NaN \<Longrightarrow> b \<noteq> NaN \<Longrightarrow> fle a b \<or> fle b a"
  by (cases a; cases b) auto

lemma fle_trans: "fle a b \<Longrightarrow> fle b c \<Longrightarrow> fle a c"
  by (cases a; cases b; cases c) auto

lemma mset_ins_pos: "mset (ins_pos xs i js) = add_mset i (mset js)"
  by (induction js) auto

lemma mset_ins_sort: "mset (ins_sort xs is) = mset is"
  by (induction "is") (auto simp: mset_ins_pos)

lemma set_ins_pos: "set (ins_pos xs i js) = insert i (set js)"
  using mset_ins_pos [of xs i js] by (metis set_mset_add_mset_insert set_mset_mset)

lemma sorted_ins_pos:
  assumes "sorted_wrt fle (map (\<lambda>j. xs ! j) js)"
    and "xs ! i \<noteq> NaN" and "\<forall>j \<in> set js. xs ! j \<noteq> NaN"
  shows "sorted_wrt fle (map (\<lambda>j. xs ! j) (ins_pos xs i js))"
  using assms
proof (induction js)
  case Nil
  then show ?case by simp
next
  case (Cons j js)
  have tot: "fle (xs ! i) (xs ! j) \<or> fle (xs ! j) (xs ! i)"
    using Cons.prems by (simp add: fle_total)
  show ?case
  proof (cases "fle (xs ! i) (xs ! j)")
    case True
    have "\<forall>k \<in> set js. fle (xs ! i) (xs ! k)"
      using Cons.prems(1) True by (auto intro: fle_trans)
    then show ?thesis using True Cons.prems(1) by simp
  next
    case False
    then have le: "fle (xs ! j) (xs ! i)" using tot by simp
    have "sorted_wrt fle (map (\<lambda>j. xs ! j) (ins_pos xs i js))"
      using Cons by simp
    then show ?thesis using False le Cons.prems(1) by (auto simp: set_ins_pos)
  qed
qed

lemma sorted_ins_sort:
  "\<forall>j \<in> set is. xs ! j \<noteq> NaN \<Longrightarrow> sorted_wrt fle (map (\<lambda>j. xs ! j) (ins_sort xs is))"
proof (induction "is")
  case Nil
  then show ?case by simp
next
  case (Cons i "is")
  have "set (ins_sort xs is) = set is"
    using mset_ins_sort [of xs "is"] by (metis set_mset_mset)
  then show ?case using Cons by (simp add: sorted_ins_pos)
qed

lemma nth_no_NaN: "NaN \<notin> set xs \<Longrightarrow> \<forall>j \<in> set [0..<length xs]. xs ! j \<noteq> NaN"
  by (metis atLeastLessThan_iff nth_mem set_upt)

lemma stable_argsort_props:
  assumes "NaN \<notin> set xs"
  shows "mset (stable_argsort xs) = mset [0..<length xs]"
    and "sorted_wrt fle (map (\<lambda>j. xs ! j) (stable_argsort xs))"
  unfolding stable_argsort_def
  by (rule mset_ins_sort, rule sorted_ins_sort [OF nth_no_NaN [OF assms]])

lemma argsort_ok_stable: "argsort_ok stable_argsort"
  unfolding argsort_ok_def using stable_argsort_props by blast

text \<open>The three index lists of nargsort.\<close>

lemma nargsort_unfold:
  "nargsort e items =
     rev (map (\<lambda>j. rev (filter (\<lambda>i. \<not> isna (items ! i)) [0..<length items]) ! j)
            (argsort e (map (\<lambda>i. cell (items ! i))
               (rev (filter (\<lambda>i. \<not> isna (items ! i)) [0..<length items]))))) @
     filter (\<lambda>i. isna (items ! i)) [0..<length items]"
  by (simp add: nargsort_def Let_def)

lemma mset_map_nth_perm:
  assumes "mset A = mset [0..<length R]"
  shows "mset (map (\<lambda>j. R ! j) A) = mset R"
proof -
  have "mset (map (\<lambda>j. R ! j) A) = image_mset (\<lambda>j. R ! j) (mset A)" by simp
  also have "\<dots> = mset (map (\<lambda>j. R ! j) [0..<length R])" using assms by simp
  also have "\<dots> = mset R" by (simp add: map_nth)
  finally show ?thesis .
qed

lemma non_nans_no_NaN:
  "NaN \<notin> set (map (\<lambda>i. cell (items ! i)) (rev (filter (\<lambda>i. \<not> isna (items ! i)) [0..<length items])))"
  by (auto simp: isna_def)

lemma indexer_props:
  fixes items :: "pyfloat option list"
  assumes ok: "argsort_ok (argsort e)"
  defines "R \<equiv> rev (filter (\<lambda>i. \<not> isna (items ! i)) [0..<length items])"
  defines "I \<equiv> rev (map (\<lambda>j. R ! j) (argsort e (map (\<lambda>i. cell (items ! i)) R)))"
  shows "mset I = mset (filter (\<lambda>i. \<not> isna (items ! i)) [0..<length items])"
    and "sorted_wrt (\<lambda>a b. fle b a) (map (\<lambda>i. cell (items ! i)) I)"
proof -
  let ?V = "map (\<lambda>i. cell (items ! i)) R"
  let ?A = "argsort e ?V"
  have nan: "NaN \<notin> set ?V" unfolding R_def by (rule non_nans_no_NaN)
  have perm: "mset ?A = mset [0..<length R]"
    using ok nan unfolding argsort_ok_def by (metis length_map)
  have srt: "sorted_wrt fle (map (\<lambda>j. ?V ! j) ?A)"
    using ok nan unfolding argsort_ok_def by blast
  have "mset (map (\<lambda>j. R ! j) ?A) = mset R" by (rule mset_map_nth_perm [OF perm])
  then show "mset I = mset (filter (\<lambda>i. \<not> isna (items ! i)) [0..<length items])"
    unfolding I_def R_def by simp
  have bound: "\<forall>j \<in> set ?A. j < length R"
    using perm by (metis atLeastLessThan_iff set_mset_mset set_upt)
  have eq: "map (\<lambda>j. ?V ! j) ?A = map (\<lambda>j. cell (items ! (R ! j))) ?A"
    by (rule map_cong [OF refl]) (use bound in simp)
  have asc: "sorted_wrt fle (map (\<lambda>j. cell (items ! (R ! j))) ?A)"
    using srt unfolding eq .
  have "map (\<lambda>i. cell (items ! i)) I = rev (map (\<lambda>j. cell (items ! (R ! j))) ?A)"
    unfolding I_def by (simp add: rev_map comp_def)
  then show "sorted_wrt (\<lambda>a b. fle b a) (map (\<lambda>i. cell (items ! i)) I)"
    using asc by (simp add: sorted_wrt_rev)
qed

lemma map_nth_filter_upt:
  "map (\<lambda>i. rs ! i) (filter (\<lambda>i. P (map f rs ! i)) [0..<length rs]) = filter (\<lambda>r. P (f r)) rs"
proof -
  have "filter (\<lambda>r. P (f r)) rs = filter (\<lambda>r. P (f r)) (map (\<lambda>i. rs ! i) [0..<length rs])"
    by (simp add: map_nth)
  also have "\<dots> = map (\<lambda>i. rs ! i) (filter (\<lambda>i. P (f (rs ! i))) [0..<length rs])"
    by (simp add: filter_map comp_def)
  also have "filter (\<lambda>i. P (f (rs ! i))) [0..<length rs] =
      filter (\<lambda>i. P (map f rs ! i)) [0..<length rs]"
    by (rule filter_cong) simp_all
  finally show ?thesis by simp
qed

lemma sort_values_structure:
  assumes ok: "argsort_ok (argsort e)"
  shows "\<exists>present.
      sort_values e df = present @ filter (\<lambda>r. isna (Long_term r)) df
      \<and> mset present = mset (filter (\<lambda>r. \<not> isna (Long_term r)) df)
      \<and> sorted_wrt (\<lambda>a b. fle (cell (Long_term b)) (cell (Long_term a))) present"
proof -
  define items where "items = map Long_term df"
  define R where "R = rev (filter (\<lambda>i. \<not> isna (items ! i)) [0..<length items])"
  define I where "I = rev (map (\<lambda>j. R ! j) (argsort e (map (\<lambda>i. cell (items ! i)) R)))"
  have len: "length items = length df" by (simp add: items_def)
  have msetI: "mset I = mset (filter (\<lambda>i. \<not> isna (items ! i)) [0..<length items])"
    unfolding I_def R_def by (rule indexer_props(1) [OF ok])
  have sortI: "sorted_wrt (\<lambda>a b. fle b a) (map (\<lambda>i. cell (items ! i)) I)"
    unfolding I_def R_def by (rule indexer_props(2) [OF ok])
  have narg: "nargsort e items = I @ filter (\<lambda>i. isna (items ! i)) [0..<length items]"
    unfolding I_def R_def by (rule nargsort_unfold)
  have na: "map (\<lambda>i. df ! i) (filter (\<lambda>i. isna (items ! i)) [0..<length items]) =
      filter (\<lambda>r. isna (Long_term r)) df"
    unfolding items_def length_map by (rule map_nth_filter_upt)
  have cr: "sort_values e df = map (\<lambda>i. df ! i) I @ filter (\<lambda>r. isna (Long_term r)) df"
    using narg na by (simp add: sort_values_def items_def)
  have "mset (map (\<lambda>i. df ! i) I) =
      mset (map (\<lambda>i. df ! i) (filter (\<lambda>i. \<not> isna (items ! i)) [0..<length items]))"
    using msetI by (metis mset_map)
  also have "\<dots> = mset (filter (\<lambda>r. \<not> isna (Long_term r)) df)"
    unfolding items_def length_map
    using map_nth_filter_upt [of df "\<lambda>v. \<not> isna v" Long_term] by simp
  finally have perm: "mset (map (\<lambda>i. df ! i) I) = mset (filter (\<lambda>r. \<not> isna (Long_term r)) df)" .
  have bound: "\<forall>i \<in> set I. i < length df"
  proof
    fix i assume "i \<in> set I"
    then have "i \<in># mset (filter (\<lambda>i. \<not> isna (items ! i)) [0..<length items])"
      using msetI by (metis set_mset_mset)
    then show "i < length df" using len by simp
  qed
  have eq: "map (\<lambda>i. cell (items ! i)) I = map (\<lambda>i. cell (Long_term (df ! i))) I"
    by (rule map_cong [OF refl]) (use bound in \<open>simp add: items_def\<close>)
  have "map (\<lambda>r. cell (Long_term r)) (map (\<lambda>i. df ! i) I) = map (\<lambda>i. cell (Long_term (df ! i))) I"
    by (simp add: comp_def)
  then have "sorted_wrt (\<lambda>a b. fle b a) (map (\<lambda>r. cell (Long_term r)) (map (\<lambda>i. df ! i) I))"
    using sortI unfolding eq by (simp add: comp_def)
  then have srt: "sorted_wrt (\<lambda>a b. fle (cell (Long_term b)) (cell (Long_term a))) (map (\<lambda>i. df ! i) I)"
    unfolding sorted_wrt_map .
  from cr perm srt show ?thesis by blast
qed

text \<open>The rows of the frame stand for the records, one for one.\<close>

lemma column_cell: "cell (column vs v) = (if list_all (\<lambda>x. x = None) vs then NaN else cell v)"
  by (simp add: column_def cell_def)

lemma column_cell_mem: "v \<in> set vs \<Longrightarrow> cell (column vs v) = cell v"
  by (auto simp: column_def cell_def list_all_iff split: option.splits)

lemma DataFrame_length: "length (DataFrame dicts) = length dicts"
  by (simp add: DataFrame_def)

lemma DataFrame_Operator: "map Operator (DataFrame (map as_dict rs)) = map operator rs"
  by (simp add: DataFrame_def as_dict_def comp_def)

lemma DataFrame_Long_cell:
  "map (\<lambda>r. cell (Long_term r)) (DataFrame (map as_dict rs)) = map (\<lambda>r. cell (long r)) rs"
  by (simp add: DataFrame_def as_dict_def comp_def column_cell_mem)

lemma create_ranking_sort:
  "rs \<noteq> [] \<Longrightarrow> create_ranking e rs = Inr (sort_values e (DataFrame (map as_dict rs)))"
  by (simp add: create_ranking_def Let_def DataFrame_def)


lemma mset_two_cases:
  assumes "mset xs = mset [a, b]"
  shows "xs = [a, b] \<or> xs = [b, a]"
proof -
  have "length xs = 2" using assms by (metis length_Cons list.size(3) numeral_2_eq_2 size_mset)
  then obtain u v where xs: "xs = [u, v]"
    by (metis (no_types) length_0_conv length_Suc_conv numeral_2_eq_2)
  show ?thesis using assms unfolding xs by (auto simp: add_eq_conv_ex)
qed

lemma upt_2: "[0..<2] = [0, Suc 0]"
  by (simp add: upt_rec numeral_2_eq_2)

lemma upt_3: "[0..<3] = [0, Suc 0, Suc (Suc 0)]"
  by (simp add: upt_rec numeral_3_eq_3)

lemma upt_4: "[0..<4] = [0, Suc 0, Suc (Suc 0), Suc (Suc (Suc 0))]"
  by (simp add: upt_rec eval_nat_numeral)

lemma scenario_A_rows:
  "collect_rows [(''X'', ''C1''), (''Y'', ''C2'')] [''C1'' \<mapsto> Finite (17 / 2)] Map.empty
     [''C1'' \<mapsto> Finite 7, ''C2'' \<mapsto> Finite 9] [] =
   [\<lparr>operator = ''X'', short = Some (Finite (17 / 2)), medium = None, long = Some (Finite 7)\<rparr>,
    \<lparr>operator = ''Y'', short = None, medium = None, long = Some (Finite 9)\<rparr>]"
  by simp

lemma scenario_A_frame:
  "DataFrame (map as_dict
     [\<lparr>operator = ''X'', short = Some (Finite (17 / 2)), medium = None, long = Some (Finite 7)\<rparr>,
      \<lparr>operator = ''Y'', short = None, medium = None, long = Some (Finite 9)\<rparr>]) =
   [\<lparr>Operator = ''X'', Short_term = Some (Finite (17 / 2)), Medium_term = None,
     Long_term = Some (Finite 7)\<rparr>,
    \<lparr>Operator = ''Y'', Short_term = Some NaN, Medium_term = None, Long_term = Some (Finite 9)\<rparr>]"
  by (simp add: DataFrame_def as_dict_def column_def cell_def)

lemma scenario_A_ranked:
  assumes ok: "argsort_ok (argsort e)"
  shows "create_ranking e
     [\<lparr>operator = ''X'', short = Some (Finite (17 / 2)), medium = None, long = Some (Finite 7)\<rparr>,
      \<lparr>operator = ''Y'', short = None, medium = None, long = Some (Finite 9)\<rparr>] =
   Inr [\<lparr>Operator = ''Y'', Short_term = Some NaN, Medium_term = None, Long_term = Some (Finite 9)\<rparr>,
        \<lparr>Operator = ''X'', Short_term = Some (Finite (17 / 2)), Medium_term = None,
         Long_term = Some (Finite 7)\<rparr>]"
proof -
  let ?X = "\<lparr>Operator = ''X'', Short_term = Some (Finite (17 / 2)), Medium_term = None,
     Long_term = Some (Finite 7)\<rparr>"
  let ?Y = "\<lparr>Operator = ''Y'', Short_term = Some NaN, Medium_term = None, Long_term = Some (Finite 9)\<rparr>"
  from sort_values_structure [OF ok, of "[?X, ?Y]"] obtain present where
    cr: "sort_values e [?X, ?Y] = present @ filter (\<lambda>r. isna (Long_term r)) [?X, ?Y]"
    and perm: "mset present = mset (filter (\<lambda>r. \<not> isna (Long_term r)) [?X, ?Y])"
    and srt: "sorted_wrt (\<lambda>a b. fle (cell (Long_term b)) (cell (Long_term a))) present"
    by blast
  have "mset present = mset [?X, ?Y]"
    using perm by (simp add: isna_def cell_def)
  then have "present = [?X, ?Y] \<or> present = [?Y, ?X]"
    by (rule mset_two_cases)
  moreover have "\<not> sorted_wrt (\<lambda>a b. fle (cell (Long_term b)) (cell (Long_term a))) [?X, ?Y]"
    by (simp add: cell_def)
  ultimately have "present = [?Y, ?X]" using srt by auto
  then have "sort_values e [?X, ?Y] = [?Y, ?X]" using cr by (simp add: isna_def cell_def)
  then show ?thesis
    unfolding create_ranking_def Let_def scenario_A_frame by simp
qed

text \<open>
  C1 as the code has it: for every non-empty list of records and every \<open>argsort\<close> that
  meets its contract, \<open>create_ranking\<close> returns the rows whose long-term value is a
  number (neither absent nor NaN), in descending order of that value, followed by all
  rows whose long-term value is absent or NaN, these in their input order; the rows of
  the frame are the records one for one, with the same operator and the same long-term
  cell. For the directory \<open>{X: C1, Y: C2}\<close> with short map \<open>{C1: 8.5}\<close>, empty medium map
  and long map \<open>{C1: 7.0, C2: 9.0}\<close> the ranking is \<open>Y\<close> and then \<open>X\<close>.
\<close>

theorem create_ranking_order:
  assumes ok: "argsort_ok (argsort e)" and ne: "rs \<noteq> []"
  shows "(\<exists>present.
      create_ranking e rs =
        Inr (present @ filter (\<lambda>r. isna (Long_term r)) (DataFrame (map as_dict rs)))
      \<and> mset present = mset (filter (\<lambda>r. \<not> isna (Long_term r)) (DataFrame (map as_dict rs)))
      \<and> sorted_wrt (\<lambda>a b. fle (cell (Long_term b)) (cell (Long_term a))) present)
    \<and> map Operator (DataFrame (map as_dict rs)) = map operator rs
    \<and> map (\<lambda>r. cell (Long_term r)) (DataFrame (map as_dict rs)) = map (\<lambda>r. cell (long r)) rs
    \<and> create_ranking e
        (collect_rows [(''X'', ''C1''), (''Y'', ''C2'')] [''C1'' \<mapsto> Finite (17 / 2)] Map.empty
           [''C1'' \<mapsto> Finite 7, ''C2'' \<mapsto> Finite 9] []) =
       Inr [\<lparr>Operator = ''Y'', Short_term = Some NaN, Medium_term = None,
             Long_term = Some (Finite 9)\<rparr>,
            \<lparr>Operator = ''X'', Short_term = Some (Finite (17 / 2)), Medium_term = None,
             Long_term = Some (Finite 7)\<rparr>]"
  using sort_values_structure [OF ok, of "DataFrame (map as_dict rs)"]
    scenario_A_ranked [OF ok] DataFrame_Operator [of rs] DataFrame_Long_cell [of rs]
  unfolding scenario_A_rows create_ranking_sort [OF ne] by blast

theorem create_ranking_order_witness:
  "argsort_ok (argsort (env0 stable_argsort))
   \<and> [\<lparr>operator = ''X'', short = None, medium = None, long = Some (Finite 7)\<rparr>] \<noteq> []
   \<and> create_ranking (env0 stable_argsort)
        (collect_rows [(''X'', ''C1''), (''Y'', ''C2'')] [''C1'' \<mapsto> Finite (17 / 2)] Map.empty
           [''C1'' \<mapsto> Finite 7, ''C2'' \<mapsto> Finite 9] []) =
       Inr [\<lparr>Operator = ''Y'', Short_term = Some NaN, Medium_term = None,
             Long_term = Some (Finite 9)\<rparr>,
            \<lparr>Operator = ''X'', Short_term = Some (Finite (17 / 2)), Medium_term = None,
             Long_term = Some (Finite 7)\<rparr>]"
proof -
  have h1: "argsort_ok (argsort (env0 stable_argsort))"
    using argsort_ok_stable by (simp add: env0_def)
  have h2: "[\<lparr>operator = ''X'', short = None, medium = None, long = Some (Finite 7)\<rparr>] \<noteq> []"
    by simp
  show ?thesis using create_ranking_order [OF h1 h2] h1 by blast
qed

text \<open>
  The claim C1 as stated fails: on the empty list \<open>create_ranking\<close> raises
  \<open>KeyError\<close>, and a record whose long-term value is absent is placed before a record
  whose long-term value is NaN.
\<close>

theorem ranking_counterexample:
  "create_ranking (env0 stable_argsort) [] = Inl KeyError
   \<and> create_ranking (env0 stable_argsort)
       [\<lparr>operator = ''A'', short = None, medium = None, long = None\<rparr>,
        \<lparr>operator = ''B'', short = None, medium = None, long = Some NaN\<rparr>,
        \<lparr>operator = ''C'', short = None, medium = None, long = Some (Finite 5)\<rparr>] =
      Inr [\<lparr>Operator = ''C'', Short_term = None, Medium_term = None, Long_term = Some (Finite 5)\<rparr>,
           \<lparr>Operator = ''A'', Short_term = None, Medium_term = None, Long_term = Some NaN\<rparr>,
           \<lparr>Operator = ''B'', Short_term = None, Medium_term = None, Long_term = Some NaN\<rparr>]"
  by (simp add: create_ranking_def sort_values_def nargsort_def isna_def cell_def env0_def
      stable_argsort_def upt_3 DataFrame_def as_dict_def column_def)

lemma DataFrame_missing_rows:
  "map Operator (filter (\<lambda>r. isna (Long_term r)) (DataFrame (map as_dict rs))) =
     map operator (filter (\<lambda>r. isna (long r)) rs)"
proof -
  let ?vs = "map Long_term (map as_dict rs)"
  let ?f = "\<lambda>d. \<lparr>Operator = Operator d,
                Short_term = column (map Short_term (map as_dict rs)) (Short_term d),
                Medium_term = column (map Medium_term (map as_dict rs)) (Medium_term d),
                Long_term = column ?vs (Long_term d)\<rparr>"
  have df: "DataFrame (map as_dict rs) = map (\<lambda>r. ?f (as_dict r)) rs"
    by (simp add: DataFrame_def comp_def)
  have na: "isna (Long_term (?f (as_dict r))) = isna (long r)" if "r \<in> set rs" for r
  proof -
    have "long r \<in> set ?vs" using that by (force simp: as_dict_def)
    then show ?thesis
      by (simp add: isna_def column_cell_mem as_dict_def)
  qed
  have "filter (\<lambda>r. isna (Long_term r)) (map (\<lambda>r. ?f (as_dict r)) rs) =
      map (\<lambda>r. ?f (as_dict r)) (filter (\<lambda>r. isna (Long_term (?f (as_dict r)))) rs)"
    by (simp add: filter_map comp_def)
  also have "filter (\<lambda>r. isna (Long_term (?f (as_dict r)))) rs = filter (\<lambda>r. isna (long r)) rs"
    by (rule filter_cong [OF refl]) (rule na)
  finally show ?thesis
    unfolding df by (simp add: comp_def as_dict_def)
qed

text \<open>
  C2 as the code has it: for every non-empty list of records and every \<open>argsort\<close> that
  meets its contract, the rows whose key is missing (absent or NaN) come after all others
  and keep the input order of their records.
\<close>

theorem create_ranking_missing_stable:
  assumes ok: "argsort_ok (argsort e)" and ne: "rs \<noteq> []"
  shows "\<exists>ranked present.
      create_ranking e rs = Inr ranked
      \<and> ranked = present @ filter (\<lambda>r. isna (Long_term r)) (DataFrame (map as_dict rs))
      \<and> (\<forall>r \<in> set present. \<not> isna (Long_term r))
      \<and> filter (\<lambda>r. isna (Long_term r)) ranked =
          filter (\<lambda>r. isna (Long_term r)) (DataFrame (map as_dict rs))
      \<and> map Operator (filter (\<lambda>r. isna (Long_term r)) ranked) =
          map operator (filter (\<lambda>r. isna (long r)) rs)"
proof -
  let ?df = "DataFrame (map as_dict rs)"
  from sort_values_structure [OF ok, of ?df] obtain present where
    cr: "sort_values e ?df = present @ filter (\<lambda>r. isna (Long_term r)) ?df"
    and perm: "mset present = mset (filter (\<lambda>r. \<not> isna (Long_term r)) ?df)"
    by blast
  have "set present = set (filter (\<lambda>r. \<not> isna (Long_term r)) ?df)"
    using perm by (metis set_mset_mset)
  then have pres: "\<forall>r \<in> set present. \<not> isna (Long_term r)" by simp
  then have "filter (\<lambda>r. isna (Long_term r)) present = []"
    by (simp add: filter_empty_conv)
  then have keep: "filter (\<lambda>r. isna (Long_term r)) (present @ filter (\<lambda>r. isna (Long_term r)) ?df) =
      filter (\<lambda>r. isna (Long_term r)) ?df"
    by simp
  have names: "map Operator (filter (\<lambda>r. isna (Long_term r))
      (present @ filter (\<lambda>r. isna (Long_term r)) ?df)) = map operator (filter (\<lambda>r. isna (long r)) rs)"
    unfolding keep by (rule DataFrame_missing_rows)
  have "create_ranking e rs = Inr (present @ filter (\<lambda>r. isna (Long_term r)) ?df)"
    unfolding create_ranking_sort [OF ne] cr ..
  then show ?thesis using pres keep names by blast
qed

theorem create_ranking_missing_stable_witness:
  "argsort_ok (argsort (env0 stable_argsort))
   \<and> (\<exists>ranked.
        create_ranking (env0 stable_argsort)
          [\<lparr>operator = ''A'', short = None, medium = None, long = None\<rparr>,
           \<lparr>operator = ''B'', short = None, medium = None, long = Some (Finite 5)\<rparr>,
           \<lparr>operator = ''C'', short = None, medium = None, long = None\<rparr>] = Inr ranked
        \<and> map Operator (filter (\<lambda>r. isna (Long_term r)) ranked) = [''A'', ''C''])"
proof -
  let ?rs = "[\<lparr>operator = ''A'', short = None, medium = None, long = None\<rparr>,
        \<lparr>operator = ''B'', short = None, medium = None, long = Some (Finite 5)\<rparr>,
        \<lparr>operator = ''C'', short = None, medium = None, long = None\<rparr>]"
  have h1: "argsort_ok (argsort (env0 stable_argsort))"
    using argsort_ok_stable by (simp add: env0_def)
  have h2: "?rs \<noteq> []" by simp
  from create_ranking_missing_stable [OF h1 h2] obtain ranked where
    cr: "create_ranking (env0 stable_argsort) ?rs = Inr ranked"
    and na: "map Operator (filter (\<lambda>r. isna (Long_term r)) ranked) =
        map operator (filter (\<lambda>r. isna (long r)) ?rs)"
    by blast
  have "map operator (filter (\<lambda>r. isna (long r)) ?rs) = [''A'', ''C'']"
    by (simp add: isna_def cell_def)
  then show ?thesis using h1 cr na by auto
qed

text \<open>
  With the insertion sort of numpy's scalar path two records with the same long-term
  value stay in input order.
\<close>

lemma ties_kept_by_insertion:
  "create_ranking (env0 stable_argsort)
     [\<lparr>operator = ''A'', short = None, medium = None, long = Some (Finite 3)\<rparr>,
      \<lparr>operator = ''B'', short = None, medium = None, long = Some (Finite 5)\<rparr>,
      \<lparr>operator = ''C'', short = None, medium = None, long = Some (Finite 7)\<rparr>,
      \<lparr>operator = ''D'', short = None, medium = None, long = Some (Finite 7)\<rparr>] =
   Inr [\<lparr>Operator = ''C'', Short_term = None, Medium_term = None, Long_term = Some (Finite 7)\<rparr>,
        \<lparr>Operator = ''D'', Short_term = None, Medium_term = None, Long_term = Some (Finite 7)\<rparr>,
        \<lparr>Operator = ''B'', Short_term = None, Medium_term = None, Long_term = Some (Finite 5)\<rparr>,
        \<lparr>Operator = ''A'', Short_term = None, Medium_term = None, Long_term = Some (Finite 3)\<rparr>]"
  by (simp add: create_ranking_def sort_values_def nargsort_def isna_def cell_def env0_def
      stable_argsort_def upt_4 DataFrame_def as_dict_def column_def)

text \<open>
  The claim C2 as stated fails: with the sorting network of numpy's vectorised path the
  records \<open>C\<close> and \<open>D\<close>, which have the same long-term value, come out as \<open>D\<close> and
  then \<open>C\<close>.
\<close>

theorem ties_counterexample:
  "create_ranking (env0 simd_argsort)
     [\<lparr>operator = ''A'', short = None, medium = None, long = Some (Finite 3)\<rparr>,
      \<lparr>operator = ''B'', short = None, medium = None, long = Some (Finite 5)\<rparr>,
      \<lparr>operator = ''C'', short = None, medium = None, long = Some (Finite 7)\<rparr>,
      \<lparr>operator = ''D'', short = None, medium = None, long = Some (Finite 7)\<rparr>] =
   Inr [\<lparr>Operator = ''D'', Short_term = None, Medium_term = None, Long_term = Some (Finite 7)\<rparr>,
        \<lparr>Operator = ''C'', Short_term = None, Medium_term = None, Long_term = Some (Finite 7)\<rparr>,
        \<lparr>Operator = ''B'', Short_term = None, Medium_term = None, Long_term = Some (Finite 5)\<rparr>,
        \<lparr>Operator = ''A'', Short_term = None, Medium_term = None, Long_term = Some (Finite 3)\<rparr>]"
  by (simp add: create_ranking_def sort_values_def nargsort_def isna_def cell_def env0_def
      simd_argsort_def network4_def compare_exchange_def upt_4 DataFrame_def as_dict_def
      column_def)

section \<open>Properties of the pipeline\<close>

lemma cells_fst: "map fst (map cells rows) = map Operator rows"
  by (induction rows) (simp_all add: cells_def)

lemma by_name_mset:
  assumes "mset ranked = mset rows" and "distinct (map Operator rows)"
  shows "by_name ranked = by_name rows"
proof -
  have m: "mset (map Operator ranked) = mset (map Operator rows)"
    using assms(1) by (metis mset_map)
  have d1: "distinct (map fst (map cells rows))"
    unfolding cells_fst by (rule assms(2))
  have "distinct (map Operator ranked)"
    using m assms(2) by (metis mset_eq_imp_distinct_iff)
  then have d2: "distinct (map fst (map cells ranked))"
    unfolding cells_fst .
  have "set_mset (mset ranked) = set_mset (mset rows)"
    using assms(1) by simp
  then have "set ranked = set rows" by simp
  then have "set (map cells ranked) = set (map cells rows)"
    by simp
  then show ?thesis
    unfolding by_name_def using map_of_inject_set [OF d2 d1] by blast
qed

lemma collect_rows_map:
  "collect_rows D s m l [] =
     map (\<lambda>(name, code). \<lparr>operator = name, short = s code, medium = m code, long = l code\<rparr>) D"
  by (simp add: collect_rows_acc)

lemma by_name_frame:
  "by_name (DataFrame (map as_dict (collect_rows D s m l []))) =
     map_of (map (\<lambda>(name, code).
        (name,
         column (map (\<lambda>(name, code). s code) D) (s code),
         column (map (\<lambda>(name, code). m code) D) (m code),
         column (map (\<lambda>(name, code). l code) D) (l code))) D)"
  by (simp add: by_name_def DataFrame_def as_dict_def cells_def collect_rows_map comp_def
      case_prod_unfold)

text \<open>
  C9 as the code has it: for every non-empty directory with distinct names, all horizon
  maps and every \<open>argsort\<close> that meets its contract, aggregating and then ranking
  returns a permutation of the rows of the data frame, and the ranked rows, read as a
  lookup by operator name, hold for every operator of the directory the cells of the
  frame: the short, medium and long value of the operator where it is a number, and a
  missing cell where the value is absent or NaN (NaN in a column that holds a number or a
  NaN somewhere, \<open>None\<close> in a column with no value at all). No row is dropped or added.
\<close>

theorem pipeline_round_trip:
  assumes ok: "argsort_ok (argsort e)" and ne: "D \<noteq> []" and dist: "distinct (map fst D)"
  shows "\<exists>ranked.
      create_ranking e (collect_rows D s m l []) = Inr ranked
      \<and> mset ranked = mset (DataFrame (map as_dict (collect_rows D s m l [])))
      \<and> by_name ranked =
          map_of (map (\<lambda>(name, code).
            (name,
             column (map (\<lambda>(name, code). s code) D) (s code),
             column (map (\<lambda>(name, code). m code) D) (m code),
             column (map (\<lambda>(name, code). l code) D) (l code))) D)
      \<and> (\<forall>(name, code) \<in> set D.
            \<exists>x y z. by_name ranked name = Some (x, y, z)
              \<and> cell x = cell (s code) \<and> cell y = cell (m code) \<and> cell z = cell (l code))"
proof -
  let ?rows = "collect_rows D s m l []"
  let ?df = "DataFrame (map as_dict ?rows)"
  have rne: "?rows \<noteq> []" using ne by (simp add: collect_rows_acc)
  from sort_values_structure [OF ok, of ?df] obtain present where
    cr: "sort_values e ?df = present @ filter (\<lambda>r. isna (Long_term r)) ?df"
    and perm: "mset present = mset (filter (\<lambda>r. \<not> isna (Long_term r)) ?df)"
    by blast
  let ?ranked = "present @ filter (\<lambda>r. isna (Long_term r)) ?df"
  have c: "create_ranking e ?rows = Inr ?ranked"
    unfolding create_ranking_sort [OF rne] cr ..
  have mset: "mset ?ranked = mset ?df"
    using perm by simp
  have "map Operator ?df = map fst D"
    unfolding DataFrame_Operator by (simp add: collect_rows_acc split_beta comp_def)
  then have "distinct (map Operator ?df)" using dist by simp
  then have bn: "by_name ?ranked = by_name ?df"
    by (rule by_name_mset [OF mset])
  let ?tab = "map (\<lambda>(name, code).
            (name,
             column (map (\<lambda>(name, code). s code) D) (s code),
             column (map (\<lambda>(name, code). m code) D) (m code),
             column (map (\<lambda>(name, code). l code) D) (l code))) D"
  have bn2: "by_name ?ranked = map_of ?tab"
    unfolding bn by (rule by_name_frame)
  have dt: "distinct (map fst ?tab)"
    using dist by (simp add: comp_def case_prod_unfold)
  have each: "\<forall>(name, code) \<in> set D.
            \<exists>x y z. by_name ?ranked name = Some (x, y, z)
              \<and> cell x = cell (s code) \<and> cell y = cell (m code) \<and> cell z = cell (l code)"
  proof (intro ballI, clarify)
    fix name code assume nc: "(name, code) \<in> set D"
    have "(name,
             column (map (\<lambda>(name, code). s code) D) (s code),
             column (map (\<lambda>(name, code). m code) D) (m code),
             column (map (\<lambda>(name, code). l code) D) (l code)) \<in> set ?tab"
      using nc by force
    then have look: "map_of ?tab name = Some
            (column (map (\<lambda>(name, code). s code) D) (s code),
             column (map (\<lambda>(name, code). m code) D) (m code),
             column (map (\<lambda>(name, code). l code) D) (l code))"
      using dt by (rule map_of_is_SomeI [rotated])
    have ms: "s code \<in> set (map (\<lambda>(name, code). s code) D)"
      and mm: "m code \<in> set (map (\<lambda>(name, code). m code) D)"
      and ml: "l code \<in> set (map (\<lambda>(name, code). l code) D)"
      using nc by force+
    show "\<exists>x y z. by_name ?ranked name = Some (x, y, z)
              \<and> cell x = cell (s code) \<and> cell y = cell (m code) \<and> cell z = cell (l code)"
      unfolding bn2 look
      using column_cell_mem [OF ms] column_cell_mem [OF mm] column_cell_mem [OF ml] by blast
  qed
  show ?thesis
    by (rule exI [of _ ?ranked]) (use c mset bn2 each in blast)
qed

theorem pipeline_round_trip_witness:
  "argsort_ok (argsort (env0 stable_argsort))
   \<and> [(''X'', ''C1''), (''Y'', ''C2'')] \<noteq> []
   \<and> distinct (map fst [(''X'', ''C1''), (''Y'', ''C2'')])
   \<and> (\<exists>ranked.
        create_ranking (env0 stable_argsort)
          (collect_rows [(''X'', ''C1''), (''Y'', ''C2'')] [''C1'' \<mapsto> Finite (17 / 2)] Map.empty
             [''C1'' \<mapsto> Finite 7, ''C2'' \<mapsto> Finite 9] []) = Inr ranked
        \<and> by_name ranked ''X'' = Some (Some (Finite (17 / 2)), None, Some (Finite 7)))"
proof -
  have h1: "argsort_ok (argsort (env0 stable_argsort))"
    using argsort_ok_stable by (simp add: env0_def)
  have h2: "[(''X'', ''C1''), (''Y'', ''C2'')] \<noteq> []" by simp
  have h3: "distinct (map fst [(''X'', ''C1''), (''Y'', ''C2'')])" by simp
  from pipeline_round_trip [OF h1 h2 h3, of "[''C1'' \<mapsto> Finite (17 / 2)]" Map.empty
      "[''C1'' \<mapsto> Finite 7, ''C2'' \<mapsto> Finite 9]"]
  obtain ranked where
    cr: "create_ranking (env0 stable_argsort)
          (collect_rows [(''X'', ''C1''), (''Y'', ''C2'')] [''C1'' \<mapsto> Finite (17 / 2)] Map.empty
             [''C1'' \<mapsto> Finite 7, ''C2'' \<mapsto> Finite 9] []) = Inr ranked"
    and bn: "by_name ranked =
          map_of (map (\<lambda>(name, code).
            (name,
             column (map (\<lambda>(name, code). [''C1'' \<mapsto> Finite (17 / 2)] code)
                [(''X'', ''C1''), (''Y'', ''C2'')]) ([''C1'' \<mapsto> Finite (17 / 2)] code),
             column (map (\<lambda>(name, code). Map.empty code) [(''X'', ''C1''), (''Y'', ''C2'')])
                (Map.empty code),
             column (map (\<lambda>(name, code). [''C1'' \<mapsto> Finite 7, ''C2'' \<mapsto> Finite 9] code)
                [(''X'', ''C1''), (''Y'', ''C2'')])
                ([''C1'' \<mapsto> Finite 7, ''C2'' \<mapsto> Finite 9] code)))
            [(''X'', ''C1''), (''Y'', ''C2'')])"
    by blast
  have "by_name ranked ''X'' = Some (Some (Finite (17 / 2)), None, Some (Finite 7))"
    unfolding bn by (simp add: column_def cell_def)
  then show ?thesis using h1 h2 h3 cr by blast
qed

text \<open>
  The claim C9 as stated fails: on the empty directory \<open>create_ranking\<close> raises
  \<open>KeyError\<close>, and the short-term value of \<open>Y\<close>, absent from the short map, comes back
  from the ranking as NaN, not as the absent value that went in.
\<close>

theorem round_trip_counterexample:
  "create_ranking (env0 stable_argsort) (collect_rows [] Map.empty Map.empty Map.empty []) =
     Inl KeyError
   \<and> create_ranking (env0 stable_argsort)
        (collect_rows [(''X'', ''C1''), (''Y'', ''C2'')] [''C1'' \<mapsto> Finite (17 / 2)] Map.empty
           [''C1'' \<mapsto> Finite 7, ''C2'' \<mapsto> Finite 9] []) =
       Inr [\<lparr>Operator = ''Y'', Short_term = Some NaN, Medium_term = None,
             Long_term = Some (Finite 9)\<rparr>,
            \<lparr>Operator = ''X'', Short_term = Some (Finite (17 / 2)), Medium_term = None,
             Long_term = Some (Finite 7)\<rparr>]
   \<and> by_name
        [\<lparr>Operator = ''Y'', Short_term = Some NaN, Medium_term = None,
          Long_term = Some (Finite 9)\<rparr>,
         \<lparr>Operator = ''X'', Short_term = Some (Finite (17 / 2)), Medium_term = None,
          Long_term = Some (Finite 7)\<rparr>] ''Y'' = Some (Some NaN, None, Some (Finite 9))
   \<and> [''C1'' \<mapsto> Finite (17 / 2)] ''C2'' = None"
proof -
  have ok: "argsort_ok (argsort (env0 stable_argsort))"
    using argsort_ok_stable by (simp add: env0_def)
  have "create_ranking (env0 stable_argsort) (collect_rows [] Map.empty Map.empty Map.empty []) =
     Inl KeyError"
    by (simp add: create_ranking_def DataFrame_def)
  then show ?thesis
    using scenario_A_ranked [OF ok] unfolding scenario_A_rows
    by (simp add: by_name_def cells_def)
qed

section \<open>Properties of main\<close>

lemma main_cases:
  "main e out =
     (case collect_returns e of
        Inl err \<Rightarrow>
          if err = HTTPError then PrintedHttpError
          else if err = KeyError then PrintedFormatError
          else PrintedError
      | Inr returns_list \<Rightarrow> Raised TypeError)"
proof (cases "collect_returns e")
  case (Inl err)
  then show ?thesis by (simp add: main_def)
next
  case (Inr returns_list)
  then obtain s m l where rl: "returns_list = collect_rows OPERATORS s m l []"
    unfolding collect_returns_def by (auto split: sum.splits)
  have ne: "returns_list \<noteq> []"
    unfolding rl by (simp add: collect_rows_acc OPERATORS_def)
  show ?thesis
    using Inr by (simp add: main_def create_ranking_sort [OF ne] to_csv_def)
qed

lemma main_aborts_on_fetch_failure:
  assumes "fetch_returns_for_horizon e horizon = Inl err"
    and "horizon \<in> {''short'', ''medium'', ''long''}"
  shows "main e out \<in> {PrintedHttpError, PrintedFormatError, PrintedError}"
proof -
  from assms have "\<exists>err'. collect_returns e = Inl err'"
    unfolding collect_returns_def by (auto split: sum.splits)
  then show ?thesis unfolding main_cases by (auto split: if_splits)
qed



end
